theory Spec2Isabelle
  imports Main
begin

section \<open>The counterpoint linter: strings and numbers of the source language\<close>

text \<open>
  The linter (\<^verbatim>\<open>counterpoint-linter.ts\<close>, the second document of
  \<^verbatim>\<open>apps/web/src/main.tsx\<close>) is TypeScript. Its strings are sequences of UTF-16
  code units; a code unit is modelled as a natural number, so that the white space of
  \<^verbatim>\<open>trim\<close> and \<^verbatim>\<open>\s\<close> beyond Latin-1 and the arrow U+2192 of the
  diagnostics are single characters, as they are in the source. \<open>js\<close> turns an
  Isabelle literal into such a string.

  Its numbers are IEEE doubles. Every number the linter computes is an integer, and
  doubles compute exactly on integers of magnitude below \<open>2 ^ 53\<close>; the embedding
  uses \<open>int\<close>, which agrees with the source on that range. Note tokens of up to
  fifteen characters stay inside it (lemma \<open>note_value_exact_range\<close>); for longer
  octave numerals the embedding computes the exact integers, which a double may round.
\<close>

type_synonym jschar = nat

type_synonym jsstring = "jschar list"

definition js :: "string \<Rightarrow> jsstring" where
  "js s = map of_char s"

text \<open>
  White space and line terminators of ECMAScript: the characters that
  \<^verbatim>\<open>String.prototype.trim\<close> strips and that \<^verbatim>\<open>\s\<close> matches.
\<close>

definition isWhiteSpace :: "jschar \<Rightarrow> bool" where
  "isWhiteSpace c \<longleftrightarrow>
     c = 0x9 \<or> c = 0xA \<or> c = 0xB \<or> c = 0xC \<or> c = 0xD \<or> c = 0x20 \<or> c = 0xA0 \<or>
     c = 0x1680 \<or> (0x2000 \<le> c \<and> c \<le> 0x200A) \<or> c = 0x2028 \<or> c = 0x2029 \<or>
     c = 0x202F \<or> c = 0x205F \<or> c = 0x3000 \<or> c = 0xFEFF"

definition trim :: "jsstring \<Rightarrow> jsstring" where
  "trim s = rev (dropWhile isWhiteSpace (rev (dropWhile isWhiteSpace s)))"

text \<open>
  \<^verbatim>\<open>s.split(/\s+/)\<close>: the fields between the maximal runs of white space, the
  empty field before a leading run and the one after a trailing run included. The flag
  says that the previous character belonged to a separator, \<open>cur\<close> is the field read
  so far.
\<close>

fun split_fields :: "bool \<Rightarrow> jsstring \<Rightarrow> jsstring \<Rightarrow> jsstring list" where
  "split_fields inSep cur [] = [cur]"
| "split_fields inSep cur (c # cs) =
     (if isWhiteSpace c
      then (if inSep then split_fields True cur cs else cur # split_fields True [] cs)
      else split_fields False (cur @ [c]) cs)"

definition split_ws :: "jsstring \<Rightarrow> jsstring list" where
  "split_ws s = split_fields False [] s"

text \<open>\<^verbatim>\<open>\d\<close>, and the letter class \<^verbatim>\<open>[A-Ga-g]\<close>.\<close>

definition isDigit :: "jschar \<Rightarrow> bool" where
  "isDigit c \<longleftrightarrow> of_char CHR ''0'' \<le> c \<and> c \<le> of_char CHR ''9''"

definition isLetterAG :: "jschar \<Rightarrow> bool" where
  "isLetterAG c \<longleftrightarrow>
     (of_char CHR ''A'' \<le> c \<and> c \<le> of_char CHR ''G'') \<or>
     (of_char CHR ''a'' \<le> c \<and> c \<le> of_char CHR ''g'')"

text \<open>
  \<^verbatim>\<open>toUpperCase\<close> and \<^verbatim>\<open>toLowerCase\<close>. The source applies them to matched
  groups only, which hold ASCII letters; on those they are as follows.
\<close>

definition toUpperCase :: "jsstring \<Rightarrow> jsstring" where
  "toUpperCase s =
     map (\<lambda>c. if of_char CHR ''a'' \<le> c \<and> c \<le> of_char CHR ''z'' then c - 32 else c) s"

definition toLowerCase :: "jsstring \<Rightarrow> jsstring" where
  "toLowerCase s =
     map (\<lambda>c. if of_char CHR ''A'' \<le> c \<and> c \<le> of_char CHR ''Z'' then c + 32 else c) s"

text \<open>
  The canonical form that a regular expression with the flag \<^verbatim>\<open>i\<close> (and without
  \<^verbatim>\<open>u\<close>) compares characters in: the upper-case form, except that a character
  outside ASCII is never mapped into ASCII. The patterns of the source hold ASCII
  characters only, so for a character outside ASCII all that matters is that its
  canonical form stays outside ASCII: it is left as it is.
\<close>

definition canonicalize :: "jschar \<Rightarrow> jschar" where
  "canonicalize c = (if of_char CHR ''a'' \<le> c \<and> c \<le> of_char CHR ''z'' then c - 32 else c)"

text \<open>
  A greedy optional character \<^verbatim>\<open>[...]?\<close>: the matched text and the rest. In both
  patterns of the source the character after the option can never be one of the class,
  so backtracking into the empty alternative finds no further match.
\<close>

fun optional :: "(jschar \<Rightarrow> bool) \<Rightarrow> jsstring \<Rightarrow> jsstring \<times> jsstring" where
  "optional P [] = ([], [])"
| "optional P (c # cs) = (if P c then ([c], cs) else ([], c # cs))"

text \<open>
  \<^verbatim>\<open>parseInt(s, 10)\<close> on a string of the form \<^verbatim>\<open>-?\d+\<close>, the only form the
  source passes to it.
\<close>

definition decimal :: "jsstring \<Rightarrow> int" where
  "decimal ds = foldl (\<lambda>v d. 10 * v + int (d - of_char CHR ''0'')) 0 ds"

definition parseInt10 :: "jsstring \<Rightarrow> int" where
  "parseInt10 s =
     (case s of
        [] \<Rightarrow> 0
      | c # ds \<Rightarrow> if c = of_char CHR ''-'' then - decimal ds else decimal s)"

text \<open>The conversion of an integer to a string, as a template literal does it.\<close>

function digits10 :: "nat \<Rightarrow> jsstring" where
  "digits10 n =
     (if n < 10 then [of_char CHR ''0'' + n]
      else digits10 (n div 10) @ [of_char CHR ''0'' + n mod 10])"
  by pat_completeness auto
termination
  by (relation "measure (\<lambda>n. n)") auto

declare digits10.simps [simp del]

definition ToString :: "int \<Rightarrow> jsstring" where
  "ToString n = (if n < 0 then of_char CHR ''-'' # digits10 (nat (- n)) else digits10 (nat n))"

text \<open>The remainder \<^verbatim>\<open>%\<close> takes the sign of the dividend.\<close>

definition js_rem :: "int \<Rightarrow> int \<Rightarrow> int" where
  "js_rem a b = sgn a * (\<bar>a\<bar> mod \<bar>b\<bar>)"

text \<open>
  \<^verbatim>\<open>for (let i = 0; i < bound; i++) body\<close>, from the counter \<open>i\<close> on; the body
  maps the state before iteration \<open>i\<close> to the state after it.
\<close>

function for_loop :: "int \<Rightarrow> (nat \<Rightarrow> 's \<Rightarrow> 's) \<Rightarrow> nat \<Rightarrow> 's \<Rightarrow> 's" where
  "for_loop bound body i s =
     (if int i < bound then for_loop bound body (i + 1) (body i s) else s)"
  by pat_completeness auto
termination
  by (relation "measure (\<lambda>(bound, body, i, s). nat (bound - int i))") auto

declare for_loop.simps [simp del]

section \<open>The data model\<close>

datatype IssueType =
  Parallel5ths | Parallel8ves | LeapOverOctave | UnresolvedLeadingTone | LengthMismatch | ParseError

text \<open>
  \<^verbatim>\<open>type Voice = 'A' | 'B'\<close>: the value of the field is the string itself.
\<close>

type_synonym Voice = jsstring

record Note =
  raw :: jsstring
  midi :: int
  pc :: int

record Issue =
  type :: IssueType
  index :: "nat option"
  voice :: "Voice option"
  details :: jsstring

record ParsedMelody =
  notes' :: "Note list"
  issues :: "Issue list"

record Key =
  tonicPC :: int
  mode :: jsstring

definition LETTER_TO_PC :: "jsstring \<rightharpoonup> int" where
  "LETTER_TO_PC =
     [js ''C'' \<mapsto> 0, js ''D'' \<mapsto> 2, js ''E'' \<mapsto> 4, js ''F'' \<mapsto> 5,
      js ''G'' \<mapsto> 7, js ''A'' \<mapsto> 9, js ''B'' \<mapsto> 11]"

definition mod12 :: "int \<Rightarrow> int" where
  "mod12 n = js_rem (js_rem n 12 + 12) 12"

section \<open>The note parser\<close>

text \<open>
  The match of \<^verbatim>\<open>/^([A-Ga-g])([#b]?)(-?\d+)$/\<close>: the three groups, or \<open>None\<close>.
\<close>

definition isAccidental :: "jschar \<Rightarrow> bool" where
  "isAccidental c \<longleftrightarrow> c = of_char CHR ''#'' \<or> c = of_char CHR ''b''"

fun match_note :: "jsstring \<Rightarrow> (jsstring \<times> jsstring \<times> jsstring) option" where
  "match_note [] = None"
| "match_note (l # r) =
     (if isLetterAG l then
        (let (m2, r1) = optional isAccidental r;
             (sg, ds) = optional (\<lambda>c. c = of_char CHR ''-'') r1
         in if ds \<noteq> [] \<and> list_all isDigit ds then Some ([l], m2, sg @ ds) else None)
      else None)"

text \<open>
  The table always has the letter that the pattern matched (lemma
  \<open>LETTER_TO_PC_matched\<close> below), so \<open>the\<close> is applied to \<open>Some\<close> only.
\<close>

definition parseNote :: "jsstring \<Rightarrow> Note option" where
  "parseNote token =
     (case match_note (trim token) of
        None \<Rightarrow> None
      | Some (m1, m2, m3) \<Rightarrow>
          (let letter = toUpperCase m1;
               acc = m2;
               oct = parseInt10 m3;
               pc0 = the (LETTER_TO_PC letter);
               pc1 = (if acc = js ''#'' then pc0 + 1 else if acc = js ''b'' then pc0 - 1 else pc0);
               pc2 = mod12 pc1;
               midi' = 12 * (oct + 1) + pc2
           in Some \<lparr>raw = token, midi = midi', pc = pc2\<rparr>))"

text \<open>
  \<^verbatim>\<open>tokens.forEach((t, i) => ...)\<close>, from the token with index \<open>i\<close> on.
\<close>

fun parseMelody_forEach :: "jsstring list \<Rightarrow> nat \<Rightarrow> ParsedMelody \<Rightarrow> ParsedMelody" where
  "parseMelody_forEach [] i st = st"
| "parseMelody_forEach (t # ts) i st =
     (case parseNote t of
        None \<Rightarrow>
          parseMelody_forEach ts (i + 1)
            (st\<lparr>issues := issues st @
               [\<lparr>type = ParseError, index = Some i, voice = None,
                 details = js ''Cannot parse note '' @ [0x22] @ t @ [0x22]\<rparr>]\<rparr>)
      | Some n \<Rightarrow> parseMelody_forEach ts (i + 1) (st\<lparr>notes' := notes' st @ [n]\<rparr>))"

definition tokenize :: "jsstring \<Rightarrow> jsstring list" where
  "tokenize line = filter (\<lambda>t. t \<noteq> []) (split_ws (trim line))"

definition parseMelody :: "jsstring \<Rightarrow> ParsedMelody" where
  "parseMelody line = parseMelody_forEach (tokenize line) 0 \<lparr>notes' = [], issues = []\<rparr>"

section \<open>The key parser\<close>

text \<open>
  The match of \<^verbatim>\<open>/^([A-Ga-g])([#b]?)\s*(major|minor)$/i\<close>. The flag \<^verbatim>\<open>i\<close>
  holds for the whole pattern: a character matches a class when its canonical form is
  the canonical form of a member, and matches a literal when the canonical forms agree.
\<close>

definition isLetterAG_i :: "jschar \<Rightarrow> bool" where
  "isLetterAG_i c \<longleftrightarrow>
     of_char CHR ''A'' \<le> canonicalize c \<and> canonicalize c \<le> of_char CHR ''G''"

definition isAccidental_i :: "jschar \<Rightarrow> bool" where
  "isAccidental_i c \<longleftrightarrow>
     canonicalize c = canonicalize (of_char CHR ''#'') \<or>
     canonicalize c = canonicalize (of_char CHR ''b'')"

definition matches_i :: "jsstring \<Rightarrow> jsstring \<Rightarrow> bool" where
  "matches_i pat s \<longleftrightarrow> map canonicalize s = map canonicalize pat"

fun match_key :: "jsstring \<Rightarrow> (jsstring \<times> jsstring \<times> jsstring) option" where
  "match_key [] = None"
| "match_key (l # r) =
     (if isLetterAG_i l then
        (let (m2, r1) = optional isAccidental_i r;
             m3 = dropWhile isWhiteSpace r1
         in if matches_i (js ''major'') m3 \<or> matches_i (js ''minor'') m3
            then Some ([l], m2, m3) else None)
      else None)"

definition parseKey :: "jsstring \<Rightarrow> Key option" where
  "parseKey keyStr =
     (case match_key (trim keyStr) of
        None \<Rightarrow> None
      | Some (m1, m2, m3) \<Rightarrow>
          (let letter = toUpperCase m1;
               acc = m2;
               mode' = toLowerCase m3;
               pc0 = the (LETTER_TO_PC letter);
               pc1 = (if acc = js ''#'' then pc0 + 1 else if acc = js ''b'' then pc0 - 1 else pc0)
           in Some \<lparr>tonicPC = mod12 pc1, mode = mode'\<rparr>))"

section \<open>The analyzer\<close>

definition sign :: "int \<Rightarrow> int" where
  "sign n = (if n = 0 then 0 else (if n > 0 then 1 else - 1))"

text \<open>The arrow U+2192 of the diagnostics.\<close>

definition arrow :: jsstring where
  "arrow = [0x2192]"

text \<open>
  Rule 1, the body of the loop at counter \<open>i\<close>: parallel fifths and octaves by similar
  motion. The loop runs while \<open>i < N - 1\<close>, so \<open>A ! i\<close>, \<open>A ! (i + 1)\<close>, \<open>B ! i\<close>
  and \<open>B ! (i + 1)\<close> are read inside both arrays.
\<close>

definition rule1_body :: "Note list \<Rightarrow> Note list \<Rightarrow> nat \<Rightarrow> Issue list \<Rightarrow> Issue list" where
  "rule1_body A B i iss =
     (let int1 = \<bar>midi (A ! i) - midi (B ! i)\<bar>;
          int2 = \<bar>midi (A ! (i + 1)) - midi (B ! (i + 1))\<bar>;
          pc1 = mod12 int1;
          pc2 = mod12 int2;
          dirA = sign (midi (A ! (i + 1)) - midi (A ! i));
          dirB = sign (midi (B ! (i + 1)) - midi (B ! i));
          similar = (dirA \<noteq> 0 \<and> dirB \<noteq> 0 \<and> dirA = dirB);
          iss1 = (if similar \<and> pc1 = 7 \<and> pc2 = 7
                  then iss @
                    [\<lparr>type = Parallel5ths, index = Some i, voice = None,
                      details = js ''Parallel 5ths at positions '' @ ToString (int i) @ arrow @
                        ToString (int i + 1) @ js '' ('' @ raw (A ! i) @ js ''/'' @ raw (B ! i) @
                        js '' '' @ arrow @ js '' '' @ raw (A ! (i + 1)) @ js ''/'' @
                        raw (B ! (i + 1)) @ js '')''\<rparr>]
                  else iss)
      in (if similar \<and> pc1 = 0 \<and> pc2 = 0
          then iss1 @
            [\<lparr>type = Parallel8ves, index = Some i, voice = None,
              details = js ''Parallel 8ves (or unisons) at positions '' @ ToString (int i) @
                arrow @ ToString (int i + 1)\<rparr>]
          else iss1))"

text \<open>
  Rule 2, the body of the loop over one voice: the source has the loop twice, for
  \<^verbatim>\<open>A\<close> with the tag \<^verbatim>\<open>'A'\<close> and the word \<^verbatim>\<open>Upper\<close>, and for
  \<^verbatim>\<open>B\<close> with \<^verbatim>\<open>'B'\<close> and \<^verbatim>\<open>Lower\<close>.
\<close>

definition rule2_body :: "Voice \<Rightarrow> jsstring \<Rightarrow> Note list \<Rightarrow> nat \<Rightarrow> Issue list \<Rightarrow> Issue list" where
  "rule2_body v name V i iss =
     (let leap = \<bar>midi (V ! (i + 1)) - midi (V ! i)\<bar>
      in if leap > 12
         then iss @
           [\<lparr>type = LeapOverOctave, index = Some i, voice = Some v,
             details = name @ js '' voice leaps '' @ ToString leap @ js '' semitones at '' @
               ToString (int i) @ arrow @ ToString (int i + 1) @ js '' ('' @ raw (V ! i) @
               arrow @ raw (V ! (i + 1)) @ js '')''\<rparr>]
         else iss)"

text \<open>Rule 3, the body of the loop over one voice; twice in the source as well.\<close>

definition rule3_body ::
  "Voice \<Rightarrow> jsstring \<Rightarrow> int \<Rightarrow> int \<Rightarrow> Note list \<Rightarrow> nat \<Rightarrow> Issue list \<Rightarrow> Issue list" where
  "rule3_body v name leadingPC tonic V i iss =
     (if pc (V ! i) = leadingPC then
        (let stepUp = (mod12 (pc (V ! (i + 1)) - pc (V ! i)) = 1)
         in if \<not> (pc (V ! (i + 1)) = tonic \<and> stepUp)
            then iss @
              [\<lparr>type = UnresolvedLeadingTone, index = Some i, voice = Some v,
                details = name @ js '' voice leading tone ('' @ raw (V ! i) @
                  js '') does not resolve up by semitone to tonic''\<rparr>]
            else iss)
      else iss)"

definition lintCounterpoint :: "jsstring \<Rightarrow> jsstring \<Rightarrow> jsstring \<Rightarrow> Issue list" where
  "lintCounterpoint upperLine lowerLine keyStr =
     (let iss0 = [] in
      case parseKey keyStr of
        None \<Rightarrow>
          iss0 @
          [\<lparr>type = ParseError, index = None, voice = None,
            details = js ''Key '' @ [0x22] @ keyStr @ [0x22] @ js '' not understood. Use like '' @
              [0x22] @ js ''C major'' @ [0x22] @ js '' or '' @ [0x22] @ js ''A minor'' @ [0x22] @
              js ''.''\<rparr>]
      | Some key \<Rightarrow>
          (let leadingPC = mod12 (tonicPC key - 1);
               tonic = tonicPC key;
               melodyA = parseMelody upperLine;
               A = notes' melodyA;
               parseA = issues melodyA;
               melodyB = parseMelody lowerLine;
               B = notes' melodyB;
               parseB = issues melodyB;
               iss1 = iss0 @ parseA @ parseB;
               iss2 = (if length A \<noteq> length B
                       then iss1 @
                         [\<lparr>type = LengthMismatch, index = None, voice = None,
                           details = js ''Voices have different lengths ('' @
                             ToString (int (length A)) @ js '' vs '' @ ToString (int (length B)) @
                             js ''). Lint assumes aligned notes.''\<rparr>]
                       else iss1);
               N = min (length A) (length B);
               iss3 = for_loop (int N - 1) (rule1_body A B) 0 iss2;
               iss4 = for_loop (int (length A) - 1) (rule2_body (js ''A'') (js ''Upper'') A) 0 iss3;
               iss5 = for_loop (int (length B) - 1) (rule2_body (js ''B'') (js ''Lower'') B) 0 iss4;
               iss6 = for_loop (int (length A) - 1)
                        (rule3_body (js ''A'') (js ''Upper'') leadingPC tonic A) 0 iss5;
               iss7 = for_loop (int (length B) - 1)
                        (rule3_body (js ''B'') (js ''Lower'') leadingPC tonic B) 0 iss6
           in iss7))"

section \<open>Notions for the statements\<close>

text \<open>
  What each pass of \<open>lintCounterpoint\<close> appends to the issues, given the parsed voices:
  the length check, and the five loops started on the empty list.
\<close>

definition mismatch :: "Note list \<Rightarrow> Note list \<Rightarrow> Issue list" where
  "mismatch A B =
     (if length A \<noteq> length B
      then [\<lparr>type = LengthMismatch, index = None, voice = None,
              details = js ''Voices have different lengths ('' @
                ToString (int (length A)) @ js '' vs '' @ ToString (int (length B)) @
                js ''). Lint assumes aligned notes.''\<rparr>]
      else [])"

definition parallels :: "Note list \<Rightarrow> Note list \<Rightarrow> Issue list" where
  "parallels A B =
     concat (map (\<lambda>i. rule1_body A B i []) [0..<min (length A) (length B) - 1])"

definition leaps :: "Voice \<Rightarrow> jsstring \<Rightarrow> Note list \<Rightarrow> Issue list" where
  "leaps v name V = concat (map (\<lambda>i. rule2_body v name V i []) [0..<length V - 1])"

definition unresolved :: "Voice \<Rightarrow> jsstring \<Rightarrow> int \<Rightarrow> int \<Rightarrow> Note list \<Rightarrow> Issue list" where
  "unresolved v name l t V =
     concat (map (\<lambda>i. rule3_body v name l t V i []) [0..<length V - 1])"

text \<open>
  The conditions under which the three rules fire at the counter \<open>i\<close>, with the
  mathematical remainder in place of \<open>mod12\<close>: similar motion from \<open>i\<close> to
  \<open>i + 1\<close> with the interval class \<open>k\<close> at both positions; a leap of more than
  twelve semitones; a leading tone that the next note does not resolve.
\<close>

definition parallel_at :: "int \<Rightarrow> Note list \<Rightarrow> Note list \<Rightarrow> nat \<Rightarrow> bool" where
  "parallel_at k A B i \<longleftrightarrow>
     sign (midi (A ! (i + 1)) - midi (A ! i)) \<noteq> 0 \<and>
     sign (midi (B ! (i + 1)) - midi (B ! i)) \<noteq> 0 \<and>
     sign (midi (A ! (i + 1)) - midi (A ! i)) = sign (midi (B ! (i + 1)) - midi (B ! i)) \<and>
     \<bar>midi (A ! i) - midi (B ! i)\<bar> mod 12 = k \<and>
     \<bar>midi (A ! (i + 1)) - midi (B ! (i + 1))\<bar> mod 12 = k"

definition leap_at :: "Note list \<Rightarrow> nat \<Rightarrow> bool" where
  "leap_at V i \<longleftrightarrow> 12 < \<bar>midi (V ! (i + 1)) - midi (V ! i)\<bar>"

definition unresolved_at :: "int \<Rightarrow> int \<Rightarrow> Note list \<Rightarrow> nat \<Rightarrow> bool" where
  "unresolved_at l t V i \<longleftrightarrow>
     pc (V ! i) = l \<and> \<not> (pc (V ! (i + 1)) = t \<and> (pc (V ! (i + 1)) - pc (V ! i)) mod 12 = 1)"

text \<open>The kind, the index and the voice of an issue: all of it but the message.\<close>

definition tags :: "Issue \<Rightarrow> IssueType \<times> nat option \<times> Voice option" where
  "tags x = (type x, index x, voice x)"

text \<open>
  The leading-tone rule with the simpler check: the body of the loop as the source has
  it, without the variable \<^verbatim>\<open>stepUp\<close>.
\<close>

definition rule3_body_simple ::
  "Voice \<Rightarrow> jsstring \<Rightarrow> int \<Rightarrow> int \<Rightarrow> Note list \<Rightarrow> nat \<Rightarrow> Issue list \<Rightarrow> Issue list" where
  "rule3_body_simple v name leadingPC tonic V i iss =
     (if pc (V ! i) = leadingPC then
        (if \<not> (pc (V ! (i + 1)) = tonic)
         then iss @
           [\<lparr>type = UnresolvedLeadingTone, index = Some i, voice = Some v,
             details = name @ js '' voice leading tone ('' @ raw (V ! i) @
               js '') does not resolve up by semitone to tonic''\<rparr>]
         else iss)
      else iss)"



section \<open>Arithmetic and loops\<close>

text \<open>
  \<^verbatim>\<open>mod12\<close> is the mathematical remainder, also on negative numbers; a loop
  whose body appends to the issues collects what each iteration appends; the decimal
  digits that \<open>ToString\<close> writes denote the number.
\<close>

lemma js_rem_nonneg: "0 \<le> a \<Longrightarrow> js_rem a 12 = a mod 12"
  by (cases "a = 0") (simp_all add: js_rem_def)

lemma js_rem_neg: "a < 0 \<Longrightarrow> js_rem a 12 = - ((- a) mod 12)"
  by (simp add: js_rem_def)

lemma mod12_eq: "mod12 n = n mod 12"
proof (cases "0 \<le> n")
  case True
  then show ?thesis by (simp add: mod12_def js_rem_nonneg)
next
  case False
  then have n: "n < 0" by simp
  have "0 \<le> - ((- n) mod 12) + 12"
    using pos_mod_bound [of 12 "- n"] by linarith
  then have "mod12 n = (- ((- n) mod 12) + 12) mod 12"
    using n by (simp add: mod12_def js_rem_neg js_rem_nonneg)
  also have "\<dots> = n mod 12"
    by (metis add.commute minus_minus mod_add_self1 mod_minus_eq)
  finally show ?thesis .
qed

lemma step_up_from_leading_tone:
  assumes "p = mod12 (t - 1)"
  shows "mod12 (t - p) = 1"
proof -
  have "(t - (t - 1) mod 12) mod 12 = (t - (t - 1)) mod 12"
    by (rule mod_diff_right_eq)
  then show ?thesis
    by (simp add: assms mod12_eq)
qed

lemma for_loop_foldl:
  "for_loop bound body i s = foldl (\<lambda>s i. body i s) s [i..<nat bound]"
proof (induction bound body i s rule: for_loop.induct)
  case (1 bound body i s)
  show ?case
  proof (cases "int i < bound")
    case True
    then have "[i..<nat bound] = i # [i + 1..<nat bound]"
      by (simp add: upt_conv_Cons)
    with True 1 show ?thesis
      by (subst for_loop.simps) simp
  next
    case False
    then show ?thesis
      by (subst for_loop.simps) simp
  qed
qed

lemma foldl_appending:
  assumes "\<And>i s. body i s = s @ body i []"
  shows "foldl (\<lambda>s i. body i s) s is = s @ concat (map (\<lambda>i. body i []) is)"
proof (induction "is" arbitrary: s)
  case Nil
  show ?case by simp
next
  case (Cons i "is")
  show ?case
    using Cons [of "body i s"] assms [of i s] by simp
qed

lemma for_loop_appending:
  assumes "\<And>i s. body i s = s @ body i []"
  shows "for_loop bound body 0 s = s @ concat (map (\<lambda>i. body i []) [0..<nat bound])"
  by (simp add: for_loop_foldl foldl_appending [OF assms])

lemma nat_bound: "nat (int n - 1) = n - 1"
  by simp

lemma ascending_indices: "sorted_wrt (<) (filter Q [0..<n])"
  by (rule sorted_wrt_filter) simp

lemma decimal_snoc: "decimal (ds @ [d]) = 10 * decimal ds + int (d - of_char CHR ''0'')"
  by (simp add: decimal_def)



lemma decimal_bounds:
  assumes "list_all isDigit ds"
  shows "0 \<le> decimal ds \<and> decimal ds < 10 ^ length ds"
  using assms
proof (induction ds rule: rev_induct)
  case Nil
  show ?case by (simp add: decimal_def)
next
  case (snoc d ds)
  then have ih: "0 \<le> decimal ds" "decimal ds + 1 \<le> 10 ^ length ds"
    by simp_all
  from snoc.prems have d: "int (d - of_char CHR ''0'') \<le> 9"
    by (auto simp add: isDigit_def)
  from ih(1,2) d show ?case
    by (simp add: decimal_snoc)
qed

section \<open>The parsers\<close>

text \<open>
  What a match of the note pattern looks like, what the note parser computes from it,
  and that the pitch values of tokens of up to fifteen characters stay in the range
  where doubles are exact. The key parser and the note parser agree on a letter followed
  by no accidental, \<open>#\<close> or \<open>b\<close>. A line of words separated by single
  spaces is tokenized into those words.
\<close>

lemma optional_cases:
  assumes "optional P xs = (a, rest)"
  shows "xs = a @ rest \<and> (a = [] \<or> (\<exists>c. a = [c] \<and> P c))"
  using assms by (cases xs) (auto split: if_splits)

lemma isLetterAG_cases:
  assumes "isLetterAG l"
  shows "l \<in> {65, 66, 67, 68, 69, 70, 71, 97, 98, 99, 100, 101, 102, 103}"
proof -
  from assms have "65 \<le> l \<and> l \<le> 71 \<or> 97 \<le> l \<and> l \<le> 103"
    by (simp add: isLetterAG_def)
  then show ?thesis
    by (simp only: insert_iff empty_iff) presburger
qed

lemma isLetterAG_i_eq: "isLetterAG_i c = isLetterAG c"
  by (auto simp add: isLetterAG_i_def isLetterAG_def canonicalize_def)

lemma letter_not_space: "isLetterAG l \<Longrightarrow> \<not> isWhiteSpace l"
  by (auto simp add: isLetterAG_def isWhiteSpace_def)

lemma LETTER_TO_PC_matched:
  assumes "isLetterAG l"
  shows "\<exists>base. LETTER_TO_PC (toUpperCase [l]) = Some base"
  using isLetterAG_cases [OF assms]
  by (auto simp add: LETTER_TO_PC_def toUpperCase_def js_def)

lemma match_note_Some:
  assumes "match_note s = Some (m1, m2, m3)"
  shows "\<exists>l sg digits. s = m1 @ m2 @ m3 \<and> m1 = [l] \<and> isLetterAG l \<and>
           (m2 = [] \<or> m2 = js ''#'' \<or> m2 = js ''b'') \<and>
           m3 = sg @ digits \<and> (sg = [] \<or> sg = js ''-'') \<and>
           digits \<noteq> [] \<and> list_all isDigit digits"
proof (cases s)
  case Nil
  with assms show ?thesis by simp
next
  case (Cons l r)
  obtain acc r1 where o1: "optional isAccidental r = (acc, r1)"
    by (cases "optional isAccidental r")
  obtain sg ds where o2: "optional (\<lambda>c. c = of_char CHR ''-'') r1 = (sg, ds)"
    by (cases "optional (\<lambda>c. c = of_char CHR ''-'') r1")
  from assms Cons o1 o2 have m: "isLetterAG l" "ds \<noteq> []" "list_all isDigit ds"
      "m1 = [l]" "m2 = acc" "m3 = sg @ ds"
    by (auto split: if_splits)
  from optional_cases [OF o1] have r: "r = acc @ r1" and acc: "acc = [] \<or> acc = js ''#'' \<or> acc = js ''b''"
    by (auto simp add: isAccidental_def js_def)
  from optional_cases [OF o2] have r1: "r1 = sg @ ds" and sg: "sg = [] \<or> sg = js ''-''"
    by (auto simp add: js_def)
  from Cons m r acc r1 sg show ?thesis
    by auto
qed

lemma parseInt10_signed:
  assumes "digits \<noteq> []" "list_all isDigit digits"
  shows "parseInt10 digits = decimal digits"
    and "parseInt10 (js ''-'' @ digits) = - decimal digits"
proof -
  from assms obtain d ds where d: "digits = d # ds" "isDigit d"
    by (cases digits) auto
  then have "d \<noteq> of_char CHR ''-''"
    by (auto simp add: isDigit_def)
  with d show "parseInt10 digits = decimal digits"
    by (simp add: parseInt10_def)
  show "parseInt10 (js ''-'' @ digits) = - decimal digits"
    by (simp add: parseInt10_def js_def)
qed

lemma parseNote_Some:
  assumes "parseNote token = Some n"
  shows "\<exists>l acc sg digits base.
          trim token = [l] @ acc @ sg @ digits \<and> isLetterAG l \<and>
          (acc = [] \<or> acc = js ''#'' \<or> acc = js ''b'') \<and>
          (sg = [] \<or> sg = js ''-'') \<and> digits \<noteq> [] \<and> list_all isDigit digits \<and>
          LETTER_TO_PC (toUpperCase [l]) = Some base \<and>
          pc n = (base + (if acc = js ''#'' then 1 else if acc = js ''b'' then - 1 else 0)) mod 12 \<and>
          midi n = 12 * ((if sg = [] then decimal digits else - decimal digits) + 1) + pc n \<and>
          raw n = token"
proof -
  from assms obtain m1 m2 m3 where m: "match_note (trim token) = Some (m1, m2, m3)"
    by (auto simp add: parseNote_def split: option.splits)
  from match_note_Some [OF m] obtain l sg digits where
    f: "trim token = m1 @ m2 @ m3" "m1 = [l]" "isLetterAG l"
       "m2 = [] \<or> m2 = js ''#'' \<or> m2 = js ''b''"
       "m3 = sg @ digits" "sg = [] \<or> sg = js ''-''" "digits \<noteq> []" "list_all isDigit digits"
    by blast
  from LETTER_TO_PC_matched [OF f(3)] obtain base where
    b: "LETTER_TO_PC (toUpperCase [l]) = Some base" ..
  have oct: "parseInt10 m3 = (if sg = [] then decimal digits else - decimal digits)"
    using f(5,6) parseInt10_signed [OF f(7,8)] by (auto simp add: js_def)
  have n: "n = \<lparr>raw = token,
        midi = 12 * (parseInt10 m3 + 1) +
          mod12 (if m2 = js ''#'' then base + 1 else if m2 = js ''b'' then base - 1 else base),
        pc = mod12 (if m2 = js ''#'' then base + 1 else if m2 = js ''b'' then base - 1 else base)\<rparr>"
    using assms m b f(2) by (auto simp add: parseNote_def Let_def)
  have "pc n = (base + (if m2 = js ''#'' then 1 else if m2 = js ''b'' then - 1 else 0)) mod 12"
    by (simp add: n mod12_eq)
  moreover have "midi n = 12 * ((if sg = [] then decimal digits else - decimal digits) + 1) + pc n"
    by (simp add: n oct)
  moreover have "raw n = token"
    by (simp add: n)
  ultimately show ?thesis
    using f b by (intro exI [of _ l] exI [of _ m2] exI [of _ sg] exI [of _ digits] exI [of _ base]) simp
qed

lemma note_value_exact_range:
  assumes "parseNote token = Some n" and "length (trim token) \<le> 15"
  shows "\<bar>midi n\<bar> < 2 ^ 53"
proof -
  from parseNote_Some [OF assms(1)] obtain l acc sg digits base where
    f: "trim token = [l] @ acc @ sg @ digits" "list_all isDigit digits"
       "pc n = (base + (if acc = js ''#'' then 1 else if acc = js ''b'' then - 1 else 0)) mod 12"
       "midi n = 12 * ((if sg = [] then decimal digits else - decimal digits) + 1) + pc n"
    by blast
  from f(1) assms(2) have "length digits \<le> 14"
    by simp
  then have "(10::int) ^ length digits \<le> 10 ^ 14"
    by (simp only: power_increasing_iff)
  with decimal_bounds [OF f(2)] have d: "0 \<le> decimal digits" "decimal digits < 10 ^ 14"
    by simp_all
  from f(3) have p: "0 \<le> pc n" "pc n < 12"
    by simp_all
  from d p f(4) show ?thesis
    by (cases "sg = []") simp_all
qed

lemma trim_between:
  assumes "\<not> isWhiteSpace l" and "\<not> isWhiteSpace z"
  shows "trim (l # s @ [z]) = l # s @ [z]"
  using assms by (simp add: trim_def)


lemma key_and_note_pitch_class_agree:
  assumes "isLetterAG l" and "acc = [] \<or> acc = js ''#'' \<or> acc = js ''b''"
  shows "\<exists>p. map_option tonicPC (parseKey ([l] @ acc @ js '' major'')) = Some p \<and>
             map_option pc (parseNote ([l] @ acc @ js ''4'')) = Some p"
proof -
  have tk: "trim ([l] @ acc @ js '' major'') = [l] @ acc @ js '' major''"
    using trim_between [OF letter_not_space [OF assms(1)], of "of_char CHR ''r''" "acc @ js '' majo''"]
    by (simp add: js_def isWhiteSpace_def)
  have tn: "trim ([l] @ acc @ js ''4'') = [l] @ acc @ js ''4''"
    using trim_between [OF letter_not_space [OF assms(1)], of "of_char CHR ''4''" acc]
    by (simp add: js_def isWhiteSpace_def)
  have mk: "match_key ([l] @ acc @ js '' major'') = Some ([l], acc, js ''major'')"
    using assms
    by (auto simp add: isLetterAG_i_eq js_def isAccidental_i_def canonicalize_def
        isWhiteSpace_def matches_i_def)
  have mn: "match_note ([l] @ acc @ js ''4'') = Some ([l], acc, js ''4'')"
    using assms by (auto simp add: js_def isAccidental_def isDigit_def)
  show ?thesis
    unfolding parseKey_def parseNote_def tk tn mk mn
    by (simp add: Let_def)
qed






lemma parseMelody_forEach_issues:
  "issues (parseMelody_forEach ts i st) =
     issues st @
     map (\<lambda>(j, t). \<lparr>type = ParseError, index = Some j, voice = None,
                     details = js ''Cannot parse note '' @ [0x22] @ t @ [0x22]\<rparr>)
       (filter (\<lambda>(j, t). parseNote t = None) (enumerate i ts))"
  by (induction ts i st rule: parseMelody_forEach.induct) (simp_all split: option.splits)


lemma parseMelody_issues:
  "issues (parseMelody line) =
     map (\<lambda>(j, t). \<lparr>type = ParseError, index = Some j, voice = None,
                     details = js ''Cannot parse note '' @ [0x22] @ t @ [0x22]\<rparr>)
       (filter (\<lambda>(j, t). parseNote t = None) (enumerate 0 (tokenize line)))"
  by (simp add: parseMelody_def parseMelody_forEach_issues)



lemmas eval_defs =
  js_def trim_def isWhiteSpace_def isLetterAG_def isAccidental_def isDigit_def toUpperCase_def
  toLowerCase_def parseInt10_def decimal_def LETTER_TO_PC_def mod12_eq canonicalize_def
  isLetterAG_i_def isAccidental_i_def matches_i_def Let_def parseNote_def parseKey_def
  parseMelody_def tokenize_def split_ws_def sign_def

section \<open>The passes of the analyzer\<close>

text \<open>
  The result of \<open>lintCounterpoint\<close> is the concatenation of what its passes emit;
  the tags of each pass, and the issues of the result that belong to each pass.
\<close>

lemma rule1_body_append: "rule1_body A B i iss = iss @ rule1_body A B i []"
  by (simp add: rule1_body_def Let_def)

lemma rule2_body_append: "rule2_body v name V i iss = iss @ rule2_body v name V i []"
  by (simp add: rule2_body_def Let_def)

lemma rule3_body_append:
  "rule3_body v name l t V i iss = iss @ rule3_body v name l t V i []"
  by (simp add: rule3_body_def Let_def)

lemma lintCounterpoint_None:
  "parseKey keyStr = None \<Longrightarrow>
   lintCounterpoint upperLine lowerLine keyStr =
     [\<lparr>type = ParseError, index = None, voice = None,
       details = js ''Key '' @ [0x22] @ keyStr @ [0x22] @ js '' not understood. Use like '' @
         [0x22] @ js ''C major'' @ [0x22] @ js '' or '' @ [0x22] @ js ''A minor'' @ [0x22] @
         js ''.''\<rparr>]"
  by (simp add: lintCounterpoint_def)

lemma lintCounterpoint_Some:
  assumes "parseKey keyStr = Some key"
  shows "lintCounterpoint upperLine lowerLine keyStr =
     issues (parseMelody upperLine) @ issues (parseMelody lowerLine) @
     mismatch (notes' (parseMelody upperLine)) (notes' (parseMelody lowerLine)) @
     parallels (notes' (parseMelody upperLine)) (notes' (parseMelody lowerLine)) @
     leaps (js ''A'') (js ''Upper'') (notes' (parseMelody upperLine)) @
     leaps (js ''B'') (js ''Lower'') (notes' (parseMelody lowerLine)) @
     unresolved (js ''A'') (js ''Upper'') (mod12 (tonicPC key - 1)) (tonicPC key)
       (notes' (parseMelody upperLine)) @
     unresolved (js ''B'') (js ''Lower'') (mod12 (tonicPC key - 1)) (tonicPC key)
       (notes' (parseMelody lowerLine))"
proof -
  have r1: "for_loop bound (rule1_body A B) 0 s =
      s @ concat (map (\<lambda>i. rule1_body A B i []) [0..<nat bound])" for bound A B s
    by (rule for_loop_appending) (rule rule1_body_append)
  have r2: "for_loop bound (rule2_body v name V) 0 s =
      s @ concat (map (\<lambda>i. rule2_body v name V i []) [0..<nat bound])" for bound v name V s
    by (rule for_loop_appending) (rule rule2_body_append)
  have r3: "for_loop bound (rule3_body v name l t V) 0 s =
      s @ concat (map (\<lambda>i. rule3_body v name l t V i []) [0..<nat bound])"
    for bound v name l t V s
    by (rule for_loop_appending) (rule rule3_body_append)
  show ?thesis
    unfolding lintCounterpoint_def Let_def assms option.case r1 r2 r3 nat_bound
      mismatch_def parallels_def leaps_def unresolved_def
    by simp
qed

lemma tags_parse:
  "map tags (issues (parseMelody line)) =
     map (\<lambda>(j, t). (ParseError, Some j, None))
       (filter (\<lambda>(j, t). parseNote t = None) (enumerate 0 (tokenize line)))"
  by (simp add: parseMelody_issues tags_def split_def o_def)

lemma tags_mismatch:
  "map tags (mismatch A B) = (if length A \<noteq> length B then [(LengthMismatch, None, None)] else [])"
  by (simp add: mismatch_def tags_def)

lemma tags_map_concat:
  assumes "\<And>i. map tags (body i) = (if Q i then [g i] else [])"
  shows "map tags (concat (map body is)) = map g (filter Q is)"
  by (induction "is") (simp_all add: assms)

lemma tags_parallels:
  "map tags (parallels A B) =
     map (\<lambda>i. (if parallel_at 7 A B i then Parallel5ths else Parallel8ves, Some i, None))
       (filter (\<lambda>i. parallel_at 7 A B i \<or> parallel_at 0 A B i)
         [0..<min (length A) (length B) - 1])"
  unfolding parallels_def
  by (rule tags_map_concat)
     (auto simp add: rule1_body_def Let_def tags_def parallel_at_def mod12_eq)

lemma tags_leaps:
  "map tags (leaps v name V) =
     map (\<lambda>i. (LeapOverOctave, Some i, Some v)) (filter (leap_at V) [0..<length V - 1])"
  unfolding leaps_def
  by (rule tags_map_concat) (simp add: rule2_body_def Let_def tags_def leap_at_def)

lemma tags_unresolved:
  "map tags (unresolved v name l t V) =
     map (\<lambda>i. (UnresolvedLeadingTone, Some i, Some v))
       (filter (unresolved_at l t V) [0..<length V - 1])"
  unfolding unresolved_def
  by (rule tags_map_concat)
     (auto simp add: rule3_body_def Let_def tags_def unresolved_at_def mod12_eq)

lemma tags_lintCounterpoint:
  assumes "parseKey keyStr = Some key"
    and "A = notes' (parseMelody upperLine)" and "B = notes' (parseMelody lowerLine)"
  shows "map tags (lintCounterpoint upperLine lowerLine keyStr) =
     map tags (issues (parseMelody upperLine)) @ map tags (issues (parseMelody lowerLine)) @
     (if length A \<noteq> length B then [(LengthMismatch, None, None)] else []) @
     map (\<lambda>i. (if parallel_at 7 A B i then Parallel5ths else Parallel8ves, Some i, None))
       (filter (\<lambda>i. parallel_at 7 A B i \<or> parallel_at 0 A B i)
         [0..<min (length A) (length B) - 1]) @
     map (\<lambda>i. (LeapOverOctave, Some i, Some (js ''A''))) (filter (leap_at A) [0..<length A - 1]) @
     map (\<lambda>i. (LeapOverOctave, Some i, Some (js ''B''))) (filter (leap_at B) [0..<length B - 1]) @
     map (\<lambda>i. (UnresolvedLeadingTone, Some i, Some (js ''A'')))
       (filter (unresolved_at (mod12 (tonicPC key - 1)) (tonicPC key) A) [0..<length A - 1]) @
     map (\<lambda>i. (UnresolvedLeadingTone, Some i, Some (js ''B'')))
       (filter (unresolved_at (mod12 (tonicPC key - 1)) (tonicPC key) B) [0..<length B - 1])"
  unfolding lintCounterpoint_Some [OF assms(1)] assms(2,3) map_append
    tags_mismatch tags_parallels tags_leaps tags_unresolved ..

lemma parallel_at_excl: "parallel_at 7 A B i \<Longrightarrow> \<not> parallel_at 0 A B i"
  by (simp add: parallel_at_def)

lemma parse_tags_mem:
  "(ty, ix, vo) \<in> set (map tags (issues (parseMelody line))) \<longleftrightarrow>
     ty = ParseError \<and> vo = None \<and>
     (\<exists>j t. ix = Some j \<and> (j, t) \<in> set (enumerate 0 (tokenize line)) \<and> parseNote t = None)"
  unfolding tags_parse by (auto simp add: image_iff)

lemma mismatch_tags_mem:
  "(ty, ix, vo) \<in> set (map tags (mismatch A B)) \<longleftrightarrow>
     ty = LengthMismatch \<and> ix = None \<and> vo = None \<and> length A \<noteq> length B"
  by (auto simp add: tags_mismatch)

lemma parallels_tags_mem:
  "(ty, ix, vo) \<in> set (map tags (parallels A B)) \<longleftrightarrow>
     (\<exists>i. ix = Some i \<and> vo = None \<and> i + 1 < min (length A) (length B) \<and>
        (ty = Parallel5ths \<and> parallel_at 7 A B i \<or> ty = Parallel8ves \<and> parallel_at 0 A B i))"
  (is "?L \<longleftrightarrow> ?R")
proof
  assume ?L
  then obtain i where i: "i < min (length A) (length B) - 1"
      "parallel_at 7 A B i \<or> parallel_at 0 A B i"
      "(ty, ix, vo) = (if parallel_at 7 A B i then Parallel5ths else Parallel8ves, Some i, None)"
    unfolding tags_parallels by auto
  then show ?R
    by (cases "parallel_at 7 A B i") auto
next
  assume ?R
  then obtain i where i: "ix = Some i" "vo = None" "i < min (length A) (length B) - 1"
      "ty = Parallel5ths \<and> parallel_at 7 A B i \<or> ty = Parallel8ves \<and> parallel_at 0 A B i"
    by auto
  from i(4) have "ty = (if parallel_at 7 A B i then Parallel5ths else Parallel8ves)"
    using parallel_at_excl [of A B i] by auto
  with i show ?L
    unfolding tags_parallels by (auto simp add: image_iff)
qed

lemma leaps_tags_mem:
  "(ty, ix, vo) \<in> set (map tags (leaps v name V)) \<longleftrightarrow>
     (\<exists>i. ix = Some i \<and> vo = Some v \<and> ty = LeapOverOctave \<and> i + 1 < length V \<and> leap_at V i)"
  unfolding tags_leaps by (auto simp add: image_iff)

lemma unresolved_tags_mem:
  "(ty, ix, vo) \<in> set (map tags (unresolved v name l t V)) \<longleftrightarrow>
     (\<exists>i. ix = Some i \<and> vo = Some v \<and> ty = UnresolvedLeadingTone \<and> i + 1 < length V \<and>
        unresolved_at l t V i)"
  unfolding tags_unresolved by (auto simp add: image_iff)

lemmas tags_mem = parse_tags_mem mismatch_tags_mem parallels_tags_mem leaps_tags_mem unresolved_tags_mem


lemma voice_tags:
  assumes "parseKey keyStr = Some key"
    and "A = notes' (parseMelody upperLine)" and "B = notes' (parseMelody lowerLine)"
  shows "(ty, ix, Some v) \<in> set (map tags (lintCounterpoint upperLine lowerLine keyStr)) \<longleftrightarrow>
         (\<exists>i. ix = Some i \<and>
           (v = js ''A'' \<and> i + 1 < length A \<and>
              (ty = LeapOverOctave \<and> leap_at A i \<or>
               ty = UnresolvedLeadingTone \<and>
                 unresolved_at (mod12 (tonicPC key - 1)) (tonicPC key) A i) \<or>
            v = js ''B'' \<and> i + 1 < length B \<and>
              (ty = LeapOverOctave \<and> leap_at B i \<or>
               ty = UnresolvedLeadingTone \<and>
                 unresolved_at (mod12 (tonicPC key - 1)) (tonicPC key) B i)))"
  unfolding lintCounterpoint_Some [OF assms(1)] map_append set_append Un_iff tags_mem
    assms(2,3) [symmetric]
  by auto


lemma ex_issue_voice_tags:
  "(\<exists>x\<in>set xs. type x = ty \<and> voice x = vo \<and> index x = ix) \<longleftrightarrow>
   (ty, ix, vo) \<in> set (map tags xs)"
  by (auto simp add: tags_def image_iff)

lemma voice_names: "js ''A'' \<noteq> js ''B''" "js ''B'' \<noteq> js ''A''"
  by (simp_all add: js_def)

lemma voice_indices:
  assumes "parseKey keyStr = Some key"
    and "A = notes' (parseMelody upperLine)" and "B = notes' (parseMelody lowerLine)"
  shows "map index (filter (\<lambda>x. type x = LeapOverOctave \<and> voice x = Some (js ''A''))
           (lintCounterpoint upperLine lowerLine keyStr)) =
         map Some (filter (leap_at A) [0..<length A - 1])"
    and "map index (filter (\<lambda>x. type x = LeapOverOctave \<and> voice x = Some (js ''B''))
           (lintCounterpoint upperLine lowerLine keyStr)) =
         map Some (filter (leap_at B) [0..<length B - 1])"
    and "map index (filter (\<lambda>x. type x = UnresolvedLeadingTone \<and> voice x = Some (js ''A''))
           (lintCounterpoint upperLine lowerLine keyStr)) =
         map Some (filter (unresolved_at (mod12 (tonicPC key - 1)) (tonicPC key) A)
           [0..<length A - 1])"
    and "map index (filter (\<lambda>x. type x = UnresolvedLeadingTone \<and> voice x = Some (js ''B''))
           (lintCounterpoint upperLine lowerLine keyStr)) =
         map Some (filter (unresolved_at (mod12 (tonicPC key - 1)) (tonicPC key) B)
           [0..<length B - 1])"
proof -
  have sel: "map index (filter (\<lambda>x. type x = ty \<and> voice x = vo) xs) =
      map (\<lambda>tg. fst (snd tg)) (filter (\<lambda>tg. fst tg = ty \<and> snd (snd tg) = vo) (map tags xs))"
    for ty vo and xs :: "Issue list"
    by (induction xs) (simp_all add: tags_def)
  show "map index (filter (\<lambda>x. type x = LeapOverOctave \<and> voice x = Some (js ''A''))
           (lintCounterpoint upperLine lowerLine keyStr)) =
         map Some (filter (leap_at A) [0..<length A - 1])"
    unfolding sel tags_lintCounterpoint [OF assms] tags_parse
    by (simp add: filter_map o_def split_def voice_names)
  show "map index (filter (\<lambda>x. type x = LeapOverOctave \<and> voice x = Some (js ''B''))
           (lintCounterpoint upperLine lowerLine keyStr)) =
         map Some (filter (leap_at B) [0..<length B - 1])"
    unfolding sel tags_lintCounterpoint [OF assms] tags_parse
    by (simp add: filter_map o_def split_def voice_names)
  show "map index (filter (\<lambda>x. type x = UnresolvedLeadingTone \<and> voice x = Some (js ''A''))
           (lintCounterpoint upperLine lowerLine keyStr)) =
         map Some (filter (unresolved_at (mod12 (tonicPC key - 1)) (tonicPC key) A)
           [0..<length A - 1])"
    unfolding sel tags_lintCounterpoint [OF assms] tags_parse
    by (simp add: filter_map o_def split_def voice_names)
  show "map index (filter (\<lambda>x. type x = UnresolvedLeadingTone \<and> voice x = Some (js ''B''))
           (lintCounterpoint upperLine lowerLine keyStr)) =
         map Some (filter (unresolved_at (mod12 (tonicPC key - 1)) (tonicPC key) B)
           [0..<length B - 1])"
    unfolding sel tags_lintCounterpoint [OF assms] tags_parse
    by (simp add: filter_map o_def split_def voice_names)
qed

lemma in_set_tags: "x \<in> set xs \<Longrightarrow> (type x, index x, voice x) \<in> set (map tags xs)"
  by (auto simp add: tags_def image_iff)

lemma parse_issue_type:
  assumes "x \<in> set (issues (parseMelody line))"
  shows "type x = ParseError" and "voice x = None"
  using in_set_tags [OF assms] unfolding parse_tags_mem by simp_all

lemma mismatch_issue_type:
  assumes "x \<in> set (mismatch A B)"
  shows "type x = LengthMismatch" and "voice x = None"
  using in_set_tags [OF assms] unfolding mismatch_tags_mem by simp_all

lemma parallels_issue_type:
  assumes "x \<in> set (parallels A B)"
  shows "type x = Parallel5ths \<or> type x = Parallel8ves"
    and "type x \<noteq> ParseError" and "type x \<noteq> LengthMismatch"
    and "type x \<noteq> LeapOverOctave" and "type x \<noteq> UnresolvedLeadingTone"
    and "voice x = None"
  using in_set_tags [OF assms] unfolding parallels_tags_mem by auto

lemma leaps_issue_type:
  assumes "x \<in> set (leaps v name V)"
  shows "type x = LeapOverOctave" and "voice x = Some v"
  using in_set_tags [OF assms] unfolding leaps_tags_mem by auto

lemma unresolved_issue_type:
  assumes "x \<in> set (unresolved v name l t V)"
  shows "type x = UnresolvedLeadingTone" and "voice x = Some v"
  using in_set_tags [OF assms] unfolding unresolved_tags_mem by auto

lemmas issue_types =
  parse_issue_type mismatch_issue_type parallels_issue_type leaps_issue_type
  unresolved_issue_type voice_names

lemma filter_mismatch:
  assumes "parseKey keyStr = Some key"
    and "A = notes' (parseMelody upperLine)" and "B = notes' (parseMelody lowerLine)"
  shows "filter (\<lambda>x. type x = LengthMismatch) (lintCounterpoint upperLine lowerLine keyStr) =
         mismatch A B"
  unfolding lintCounterpoint_Some [OF assms(1)] assms(2,3) filter_append
  by (simp add: issue_types cong: filter_cong)

lemma filter_parse:
  assumes "parseKey keyStr = Some key"
  shows "filter (\<lambda>x. type x = ParseError) (lintCounterpoint upperLine lowerLine keyStr) =
         issues (parseMelody upperLine) @ issues (parseMelody lowerLine)"
  unfolding lintCounterpoint_Some [OF assms(1)] filter_append
  by (simp add: issue_types cong: filter_cong)

lemma filter_parallels:
  assumes "parseKey keyStr = Some key"
    and "A = notes' (parseMelody upperLine)" and "B = notes' (parseMelody lowerLine)"
  shows "filter (\<lambda>x. type x = Parallel5ths \<or> type x = Parallel8ves)
           (lintCounterpoint upperLine lowerLine keyStr) = parallels A B"
  unfolding lintCounterpoint_Some [OF assms(1)] assms(2,3) filter_append
  by (simp add: issue_types cong: filter_cong)

lemma filter_voice:
  assumes "parseKey keyStr = Some key"
    and "A = notes' (parseMelody upperLine)" and "B = notes' (parseMelody lowerLine)"
  shows "filter (\<lambda>x. type x = LeapOverOctave \<and> voice x = Some (js ''A''))
           (lintCounterpoint upperLine lowerLine keyStr) = leaps (js ''A'') (js ''Upper'') A"
    and "filter (\<lambda>x. type x = LeapOverOctave \<and> voice x = Some (js ''B''))
           (lintCounterpoint upperLine lowerLine keyStr) = leaps (js ''B'') (js ''Lower'') B"
    and "filter (\<lambda>x. type x = UnresolvedLeadingTone \<and> voice x = Some (js ''A''))
           (lintCounterpoint upperLine lowerLine keyStr) =
         unresolved (js ''A'') (js ''Upper'') (mod12 (tonicPC key - 1)) (tonicPC key) A"
    and "filter (\<lambda>x. type x = UnresolvedLeadingTone \<and> voice x = Some (js ''B''))
           (lintCounterpoint upperLine lowerLine keyStr) =
         unresolved (js ''B'') (js ''Lower'') (mod12 (tonicPC key - 1)) (tonicPC key) B"
  unfolding lintCounterpoint_Some [OF assms(1)] assms(2,3) filter_append
  by (simp_all add: issue_types cong: filter_cong)

lemma parallels_indices:
  "map index (parallels A B) =
     map Some (filter (\<lambda>i. parallel_at 7 A B i \<or> parallel_at 0 A B i)
       [0..<min (length A) (length B) - 1])"
proof -
  have "map index (parallels A B) = map (\<lambda>tg. fst (snd tg)) (map tags (parallels A B))"
    by (simp add: tags_def)
  then show ?thesis
    unfolding tags_parallels by simp
qed

lemma voice_values:
  assumes "parseKey keyStr = Some key"
    and "x \<in> set (lintCounterpoint upperLine lowerLine keyStr)"
  shows "voice x = None \<or> voice x = Some (js ''A'') \<or> voice x = Some (js ''B'')"
  using assms(2) unfolding lintCounterpoint_Some [OF assms(1)]
  by (auto simp add: issue_types)


section \<open>The claims\<close>



text \<open>
  C2. When the key string does not parse, the result is one issue of kind
  \<open>ParseError\<close>, whatever the two note lines hold: any other two note lines give
  the same result.
\<close>

theorem unparseable_key_short_circuits:
  assumes "parseKey keyStr = None"
  shows "map type (lintCounterpoint upperLine lowerLine keyStr) = [ParseError] \<and>
         lintCounterpoint upperLine lowerLine keyStr = lintCounterpoint upperLine' lowerLine' keyStr"
  by (simp add: lintCounterpoint_None [OF assms])

theorem unparseable_key_short_circuits_witness:
  "parseKey (js ''Z major'') = None \<and>
   map type (lintCounterpoint (js ''C4 D4'') (js ''E3 F3'') (js ''Z major'')) = [ParseError] \<and>
   lintCounterpoint (js ''C4 D4'') (js ''E3 F3'') (js ''Z major'') =
     lintCounterpoint (js ''C4 X9 C6'') [] (js ''Z major'')"
proof -
  have k: "parseKey (js ''Z major'') = None"
    by (simp add: eval_defs)
  from k unparseable_key_short_circuits [OF k, of "js ''C4 D4''" "js ''E3 F3''" "js ''C4 X9 C6''" "[]"]
  show ?thesis
    by blast
qed

text \<open>
  C3. With a key that parses, an \<open>UnresolvedLeadingTone\<close> issue tagged with a voice
  and the index \<open>i\<close> is emitted exactly when \<open>i\<close> is before the last parsed note of
  that voice, the pitch class of the note at \<open>i\<close> is the leading tone
  \<open>(tonicPC - 1) mod 12\<close>, and it is not the case that the next note has the pitch
  class of the tonic and lies one semitone above in pitch classes. The rule never fires
  at the last note of a voice.
\<close>

theorem leading_tone_rule:
  assumes "parseKey keyStr = Some key"
    and "A = notes' (parseMelody upperLine)" and "B = notes' (parseMelody lowerLine)"
  shows
    "((\<exists>x\<in>set (lintCounterpoint upperLine lowerLine keyStr).
         type x = UnresolvedLeadingTone \<and> voice x = Some (js ''A'') \<and> index x = Some i) \<longleftrightarrow>
      i + 1 < length A \<and> pc (A ! i) = (tonicPC key - 1) mod 12 \<and>
      \<not> (pc (A ! (i + 1)) = tonicPC key \<and> (pc (A ! (i + 1)) - pc (A ! i)) mod 12 = 1)) \<and>
     ((\<exists>x\<in>set (lintCounterpoint upperLine lowerLine keyStr).
         type x = UnresolvedLeadingTone \<and> voice x = Some (js ''B'') \<and> index x = Some i) \<longleftrightarrow>
      i + 1 < length B \<and> pc (B ! i) = (tonicPC key - 1) mod 12 \<and>
      \<not> (pc (B ! (i + 1)) = tonicPC key \<and> (pc (B ! (i + 1)) - pc (B ! i)) mod 12 = 1)) \<and>
     \<not> (\<exists>x\<in>set (lintCounterpoint upperLine lowerLine keyStr).
          type x = UnresolvedLeadingTone \<and> voice x = Some (js ''A'') \<and>
          index x = Some (length A - 1)) \<and>
     \<not> (\<exists>x\<in>set (lintCounterpoint upperLine lowerLine keyStr).
          type x = UnresolvedLeadingTone \<and> voice x = Some (js ''B'') \<and>
          index x = Some (length B - 1))"
  unfolding ex_issue_voice_tags voice_tags [OF assms]
  by (auto simp add: unresolved_at_def mod12_eq voice_names)

theorem leading_tone_rule_witness:
  "parseKey (js ''C major'') = Some \<lparr>tonicPC = 0, mode = js ''major''\<rparr> \<and>
   (\<exists>x\<in>set (lintCounterpoint (js ''B3 D4 B3'') (js ''B3 C4'') (js ''C major'')).
      type x = UnresolvedLeadingTone \<and> voice x = Some (js ''A'') \<and> index x = Some 0) \<and>
   \<not> (\<exists>x\<in>set (lintCounterpoint (js ''B3 D4 B3'') (js ''B3 C4'') (js ''C major'')).
      type x = UnresolvedLeadingTone \<and> voice x = Some (js ''B'') \<and> index x = Some 0) \<and>
   \<not> (\<exists>x\<in>set (lintCounterpoint (js ''B3 D4 B3'') (js ''B3 C4'') (js ''C major'')).
      type x = UnresolvedLeadingTone \<and> voice x = Some (js ''A'') \<and> index x = Some 2)"
proof -
  have k: "parseKey (js ''C major'') = Some \<lparr>tonicPC = 0, mode = js ''major''\<rparr>"
    by (simp add: eval_defs)
  have a: "[\<lparr>raw = js ''B3'', midi = 59, pc = 11\<rparr>, \<lparr>raw = js ''D4'', midi = 62, pc = 2\<rparr>,
            \<lparr>raw = js ''B3'', midi = 59, pc = 11\<rparr>] = notes' (parseMelody (js ''B3 D4 B3''))"
    by (simp add: eval_defs)
  have b: "[\<lparr>raw = js ''B3'', midi = 59, pc = 11\<rparr>, \<lparr>raw = js ''C4'', midi = 60, pc = 0\<rparr>] =
           notes' (parseMelody (js ''B3 C4''))"
    by (simp add: eval_defs)
  show ?thesis
    using leading_tone_rule [OF k a b, of 0] leading_tone_rule [OF k a b, of 2]
    by (simp add: k)
qed







text \<open>
  C7 as the source has it. The type \<^verbatim>\<open>Voice\<close> is \<^verbatim>\<open>'A' | 'B'\<close>: with a key
  that parses, the voice field of an issue is absent, \<open>A\<close> or \<open>B\<close>; the issues
  tagged \<open>A\<close> are the leap and leading-tone issues of the upper line, those tagged
  \<open>B\<close> the ones of the lower line; and a leap of 13 semitones between two adjacent
  notes of the upper line yields a \<open>LeapOverOctave\<close> issue whose voice field is
  \<open>A\<close>.
\<close>

theorem voice_field_values:
  assumes "parseKey keyStr = Some key"
    and "A = notes' (parseMelody upperLine)" and "B = notes' (parseMelody lowerLine)"
  shows
    "(\<forall>x\<in>set (lintCounterpoint upperLine lowerLine keyStr).
        voice x = None \<or> voice x = Some (js ''A'') \<or> voice x = Some (js ''B'')) \<and>
     ((\<exists>x\<in>set (lintCounterpoint upperLine lowerLine keyStr).
         type x = ty \<and> voice x = Some (js ''A'') \<and> index x = ix) \<longleftrightarrow>
      (\<exists>i. ix = Some i \<and> i + 1 < length A \<and>
         (ty = LeapOverOctave \<and> 12 < \<bar>midi (A ! (i + 1)) - midi (A ! i)\<bar> \<or>
          ty = UnresolvedLeadingTone \<and> pc (A ! i) = (tonicPC key - 1) mod 12 \<and>
            \<not> (pc (A ! (i + 1)) = tonicPC key \<and> (pc (A ! (i + 1)) - pc (A ! i)) mod 12 = 1)))) \<and>
     ((\<exists>x\<in>set (lintCounterpoint upperLine lowerLine keyStr).
         type x = ty \<and> voice x = Some (js ''B'') \<and> index x = ix) \<longleftrightarrow>
      (\<exists>i. ix = Some i \<and> i + 1 < length B \<and>
         (ty = LeapOverOctave \<and> 12 < \<bar>midi (B ! (i + 1)) - midi (B ! i)\<bar> \<or>
          ty = UnresolvedLeadingTone \<and> pc (B ! i) = (tonicPC key - 1) mod 12 \<and>
            \<not> (pc (B ! (i + 1)) = tonicPC key \<and> (pc (B ! (i + 1)) - pc (B ! i)) mod 12 = 1)))) \<and>
     (i + 1 < length A \<and> \<bar>midi (A ! (i + 1)) - midi (A ! i)\<bar> = 13 \<longrightarrow>
      (\<exists>x\<in>set (lintCounterpoint upperLine lowerLine keyStr).
         type x = LeapOverOctave \<and> voice x = Some (js ''A'') \<and> index x = Some i))"
proof -
  have v: "\<forall>x\<in>set (lintCounterpoint upperLine lowerLine keyStr).
        voice x = None \<or> voice x = Some (js ''A'') \<or> voice x = Some (js ''B'')"
    using voice_values [OF assms(1)] by blast
  show ?thesis
    unfolding ex_issue_voice_tags voice_tags [OF assms]
    using v by (auto simp add: unresolved_at_def leap_at_def mod12_eq voice_names)
qed

theorem voice_field_values_witness:
  "parseKey (js ''C major'') = Some \<lparr>tonicPC = 0, mode = js ''major''\<rparr> \<and>
   \<bar>midi \<lparr>raw = js ''C#5'', midi = 73, pc = 1\<rparr> - midi \<lparr>raw = js ''C4'', midi = 60, pc = 0\<rparr>\<bar> = 13 \<and>
   (\<exists>x\<in>set (lintCounterpoint (js ''C4 C#5'') (js ''C3 C3'') (js ''C major'')).
      type x = LeapOverOctave \<and> voice x = Some (js ''A'') \<and> index x = Some 0)"
proof -
  have k: "parseKey (js ''C major'') = Some \<lparr>tonicPC = 0, mode = js ''major''\<rparr>"
    by (simp add: eval_defs)
  have a: "[\<lparr>raw = js ''C4'', midi = 60, pc = 0\<rparr>, \<lparr>raw = js ''C#5'', midi = 73, pc = 1\<rparr>] =
           notes' (parseMelody (js ''C4 C#5''))"
    by (simp add: eval_defs)
  have b: "[\<lparr>raw = js ''C3'', midi = 48, pc = 0\<rparr>, \<lparr>raw = js ''C3'', midi = 48, pc = 0\<rparr>] =
           notes' (parseMelody (js ''C3 C3''))"
    by (simp add: eval_defs)
  from voice_field_values [OF k a b, of LeapOverOctave "Some 0" 0] k show ?thesis
    by simp
qed

text \<open>
  C7 as the specification has it fails: on a leap of 13 semitones in the upper line the
  only issue is a \<open>LeapOverOctave\<close> whose voice field is \<open>A\<close>, not \<open>upper\<close>.
\<close>

theorem voice_field_upper_counterexample:
  "map type (lintCounterpoint (js ''C4 C#5'') (js ''C3 C3'') (js ''C major'')) = [LeapOverOctave] \<and>
   map voice (lintCounterpoint (js ''C4 C#5'') (js ''C3 C3'') (js ''C major'')) = [Some (js ''A'')] \<and>
   js ''A'' \<noteq> js ''upper''"
proof -
  have k: "parseKey (js ''C major'') = Some \<lparr>tonicPC = 0, mode = js ''major''\<rparr>"
    by (simp add: eval_defs)
  have a: "[\<lparr>raw = js ''C4'', midi = 60, pc = 0\<rparr>, \<lparr>raw = js ''C#5'', midi = 73, pc = 1\<rparr>] =
           notes' (parseMelody (js ''C4 C#5''))"
    by (simp add: eval_defs)
  have b: "[\<lparr>raw = js ''C3'', midi = 48, pc = 0\<rparr>, \<lparr>raw = js ''C3'', midi = 48, pc = 0\<rparr>] =
           notes' (parseMelody (js ''C3 C3''))"
    by (simp add: eval_defs)
  have pa: "issues (parseMelody (js ''C4 C#5'')) = []"
    by (simp add: eval_defs)
  have pb: "issues (parseMelody (js ''C3 C3'')) = []"
    by (simp add: eval_defs)
  have t: "map tags (lintCounterpoint (js ''C4 C#5'') (js ''C3 C3'') (js ''C major'')) =
      [(LeapOverOctave, Some 0, Some (js ''A''))]"
    unfolding tags_lintCounterpoint [OF k a b] pa pb
    by (simp add: parallel_at_def leap_at_def unresolved_at_def sign_def mod12_eq)
  have ty: "map type xs = map fst (map tags xs)"
    and vo: "map voice xs = map (\<lambda>tg. snd (snd tg)) (map tags xs)" for xs :: "Issue list"
    by (simp_all add: tags_def)
  show ?thesis
    unfolding ty vo t by (simp add: js_def)
qed

text \<open>
  C8. With a key that parses, the result is ordered by pass: first the \<open>ParseError\<close>
  issues, those of the upper line before those of the lower line, each line's in the
  order of its tokens (one issue for each token that does not parse, with the position
  of the token); then the \<open>LengthMismatch\<close> issue if there is one; then the
  parallel-motion issues; then the leap issues of the upper voice and those of the lower
  voice; then the leading-tone issues of the upper voice and those of the lower voice.
  Within each of the last five groups the indices are strictly ascending.
\<close>

theorem issues_ordered_by_pass:
  assumes "parseKey keyStr = Some key"
  shows
    "lintCounterpoint upperLine lowerLine keyStr =
       filter (\<lambda>x. type x = ParseError) (lintCounterpoint upperLine lowerLine keyStr) @
       filter (\<lambda>x. type x = LengthMismatch) (lintCounterpoint upperLine lowerLine keyStr) @
       filter (\<lambda>x. type x = Parallel5ths \<or> type x = Parallel8ves)
         (lintCounterpoint upperLine lowerLine keyStr) @
       filter (\<lambda>x. type x = LeapOverOctave \<and> voice x = Some (js ''A''))
         (lintCounterpoint upperLine lowerLine keyStr) @
       filter (\<lambda>x. type x = LeapOverOctave \<and> voice x = Some (js ''B''))
         (lintCounterpoint upperLine lowerLine keyStr) @
       filter (\<lambda>x. type x = UnresolvedLeadingTone \<and> voice x = Some (js ''A''))
         (lintCounterpoint upperLine lowerLine keyStr) @
       filter (\<lambda>x. type x = UnresolvedLeadingTone \<and> voice x = Some (js ''B''))
         (lintCounterpoint upperLine lowerLine keyStr) \<and>
     filter (\<lambda>x. type x = ParseError) (lintCounterpoint upperLine lowerLine keyStr) =
       map (\<lambda>(j, t). \<lparr>type = ParseError, index = Some j, voice = None,
                       details = js ''Cannot parse note '' @ [0x22] @ t @ [0x22]\<rparr>)
         (filter (\<lambda>(j, t). parseNote t = None) (enumerate 0 (tokenize upperLine))) @
       map (\<lambda>(j, t). \<lparr>type = ParseError, index = Some j, voice = None,
                       details = js ''Cannot parse note '' @ [0x22] @ t @ [0x22]\<rparr>)
         (filter (\<lambda>(j, t). parseNote t = None) (enumerate 0 (tokenize lowerLine))) \<and>
     (\<exists>is. map index (filter (\<lambda>x. type x = Parallel5ths \<or> type x = Parallel8ves)
              (lintCounterpoint upperLine lowerLine keyStr)) = map Some is \<and>
           sorted_wrt (<) is) \<and>
     (\<exists>is. map index (filter (\<lambda>x. type x = LeapOverOctave \<and> voice x = Some (js ''A''))
              (lintCounterpoint upperLine lowerLine keyStr)) = map Some is \<and>
           sorted_wrt (<) is) \<and>
     (\<exists>is. map index (filter (\<lambda>x. type x = LeapOverOctave \<and> voice x = Some (js ''B''))
              (lintCounterpoint upperLine lowerLine keyStr)) = map Some is \<and>
           sorted_wrt (<) is) \<and>
     (\<exists>is. map index (filter (\<lambda>x. type x = UnresolvedLeadingTone \<and> voice x = Some (js ''A''))
              (lintCounterpoint upperLine lowerLine keyStr)) = map Some is \<and>
           sorted_wrt (<) is) \<and>
     (\<exists>is. map index (filter (\<lambda>x. type x = UnresolvedLeadingTone \<and> voice x = Some (js ''B''))
              (lintCounterpoint upperLine lowerLine keyStr)) = map Some is \<and>
           sorted_wrt (<) is)"
proof -
  define A where "A = notes' (parseMelody upperLine)"
  define B where "B = notes' (parseMelody lowerLine)"
  note f = filter_parse [OF assms] filter_mismatch [OF assms A_def B_def]
    filter_parallels [OF assms A_def B_def] filter_voice [OF assms A_def B_def]
  have whole: "lintCounterpoint upperLine lowerLine keyStr =
       filter (\<lambda>x. type x = ParseError) (lintCounterpoint upperLine lowerLine keyStr) @
       filter (\<lambda>x. type x = LengthMismatch) (lintCounterpoint upperLine lowerLine keyStr) @
       filter (\<lambda>x. type x = Parallel5ths \<or> type x = Parallel8ves)
         (lintCounterpoint upperLine lowerLine keyStr) @
       filter (\<lambda>x. type x = LeapOverOctave \<and> voice x = Some (js ''A''))
         (lintCounterpoint upperLine lowerLine keyStr) @
       filter (\<lambda>x. type x = LeapOverOctave \<and> voice x = Some (js ''B''))
         (lintCounterpoint upperLine lowerLine keyStr) @
       filter (\<lambda>x. type x = UnresolvedLeadingTone \<and> voice x = Some (js ''A''))
         (lintCounterpoint upperLine lowerLine keyStr) @
       filter (\<lambda>x. type x = UnresolvedLeadingTone \<and> voice x = Some (js ''B''))
         (lintCounterpoint upperLine lowerLine keyStr)"
    unfolding f unfolding lintCounterpoint_Some [OF assms] A_def B_def by simp
  have parse: "filter (\<lambda>x. type x = ParseError) (lintCounterpoint upperLine lowerLine keyStr) =
       map (\<lambda>(j, t). \<lparr>type = ParseError, index = Some j, voice = None,
                       details = js ''Cannot parse note '' @ [0x22] @ t @ [0x22]\<rparr>)
         (filter (\<lambda>(j, t). parseNote t = None) (enumerate 0 (tokenize upperLine))) @
       map (\<lambda>(j, t). \<lparr>type = ParseError, index = Some j, voice = None,
                       details = js ''Cannot parse note '' @ [0x22] @ t @ [0x22]\<rparr>)
         (filter (\<lambda>(j, t). parseNote t = None) (enumerate 0 (tokenize lowerLine)))"
    unfolding filter_parse [OF assms] parseMelody_issues ..
  have par: "\<exists>is. map index (filter (\<lambda>x. type x = Parallel5ths \<or> type x = Parallel8ves)
              (lintCounterpoint upperLine lowerLine keyStr)) = map Some is \<and>
           sorted_wrt (<) is"
    unfolding filter_parallels [OF assms A_def B_def] parallels_indices
    using ascending_indices by blast
  note v = voice_indices [OF assms A_def B_def]
  have la: "\<exists>is. map index (filter (\<lambda>x. type x = LeapOverOctave \<and> voice x = Some (js ''A''))
              (lintCounterpoint upperLine lowerLine keyStr)) = map Some is \<and>
           sorted_wrt (<) is"
    unfolding v using ascending_indices by blast
  have lb: "\<exists>is. map index (filter (\<lambda>x. type x = LeapOverOctave \<and> voice x = Some (js ''B''))
              (lintCounterpoint upperLine lowerLine keyStr)) = map Some is \<and>
           sorted_wrt (<) is"
    unfolding v using ascending_indices by blast
  have ua: "\<exists>is. map index (filter (\<lambda>x. type x = UnresolvedLeadingTone \<and> voice x = Some (js ''A''))
              (lintCounterpoint upperLine lowerLine keyStr)) = map Some is \<and>
           sorted_wrt (<) is"
    unfolding v using ascending_indices by blast
  have ub: "\<exists>is. map index (filter (\<lambda>x. type x = UnresolvedLeadingTone \<and> voice x = Some (js ''B''))
              (lintCounterpoint upperLine lowerLine keyStr)) = map Some is \<and>
           sorted_wrt (<) is"
    unfolding v using ascending_indices by blast
  from whole parse par la lb ua ub show ?thesis
    by (intro conjI)
qed

theorem issues_ordered_by_pass_witness:
  "parseKey (js ''C major'') = Some \<lparr>tonicPC = 0, mode = js ''major''\<rparr> \<and>
   map tags (lintCounterpoint (js ''X C4 D4 B5 D4'') (js ''F3 G3 zz C2'') (js ''C major'')) =
     [(ParseError, Some 0, None), (ParseError, Some 2, None), (LengthMismatch, None, None),
      (Parallel5ths, Some 0, None),
      (LeapOverOctave, Some 1, Some (js ''A'')), (LeapOverOctave, Some 2, Some (js ''A'')),
      (LeapOverOctave, Some 1, Some (js ''B'')),
      (UnresolvedLeadingTone, Some 2, Some (js ''A''))] \<and>
   lintCounterpoint (js ''X C4 D4 B5 D4'') (js ''F3 G3 zz C2'') (js ''C major'') =
     filter (\<lambda>x. type x = ParseError)
       (lintCounterpoint (js ''X C4 D4 B5 D4'') (js ''F3 G3 zz C2'') (js ''C major'')) @
     filter (\<lambda>x. type x = LengthMismatch)
       (lintCounterpoint (js ''X C4 D4 B5 D4'') (js ''F3 G3 zz C2'') (js ''C major'')) @
     filter (\<lambda>x. type x = Parallel5ths \<or> type x = Parallel8ves)
       (lintCounterpoint (js ''X C4 D4 B5 D4'') (js ''F3 G3 zz C2'') (js ''C major'')) @
     filter (\<lambda>x. type x = LeapOverOctave \<and> voice x = Some (js ''A''))
       (lintCounterpoint (js ''X C4 D4 B5 D4'') (js ''F3 G3 zz C2'') (js ''C major'')) @
     filter (\<lambda>x. type x = LeapOverOctave \<and> voice x = Some (js ''B''))
       (lintCounterpoint (js ''X C4 D4 B5 D4'') (js ''F3 G3 zz C2'') (js ''C major'')) @
     filter (\<lambda>x. type x = UnresolvedLeadingTone \<and> voice x = Some (js ''A''))
       (lintCounterpoint (js ''X C4 D4 B5 D4'') (js ''F3 G3 zz C2'') (js ''C major'')) @
     filter (\<lambda>x. type x = UnresolvedLeadingTone \<and> voice x = Some (js ''B''))
       (lintCounterpoint (js ''X C4 D4 B5 D4'') (js ''F3 G3 zz C2'') (js ''C major''))"
proof -
  have k: "parseKey (js ''C major'') = Some \<lparr>tonicPC = 0, mode = js ''major''\<rparr>"
    by (simp add: eval_defs)
  have a: "[\<lparr>raw = js ''C4'', midi = 60, pc = 0\<rparr>, \<lparr>raw = js ''D4'', midi = 62, pc = 2\<rparr>,
            \<lparr>raw = js ''B5'', midi = 83, pc = 11\<rparr>, \<lparr>raw = js ''D4'', midi = 62, pc = 2\<rparr>] =
           notes' (parseMelody (js ''X C4 D4 B5 D4''))"
    by (simp add: eval_defs)
  have b: "[\<lparr>raw = js ''F3'', midi = 53, pc = 5\<rparr>, \<lparr>raw = js ''G3'', midi = 55, pc = 7\<rparr>,
            \<lparr>raw = js ''C2'', midi = 36, pc = 0\<rparr>] = notes' (parseMelody (js ''F3 G3 zz C2''))"
    by (simp add: eval_defs)
  have pa: "map tags (issues (parseMelody (js ''X C4 D4 B5 D4''))) = [(ParseError, Some 0, None)]"
    by (simp add: eval_defs tags_def)
  have pb: "map tags (issues (parseMelody (js ''F3 G3 zz C2''))) = [(ParseError, Some 2, None)]"
    by (simp add: eval_defs tags_def)
  have u: "[0..<3] = [0, 1, 2::nat]" "[0..<2] = [0, 1::nat]"
    by (simp_all add: upt_conv_Cons)
  have t: "map tags (lintCounterpoint (js ''X C4 D4 B5 D4'') (js ''F3 G3 zz C2'') (js ''C major'')) =
     [(ParseError, Some 0, None), (ParseError, Some 2, None), (LengthMismatch, None, None),
      (Parallel5ths, Some 0, None),
      (LeapOverOctave, Some 1, Some (js ''A'')), (LeapOverOctave, Some 2, Some (js ''A'')),
      (LeapOverOctave, Some 1, Some (js ''B'')),
      (UnresolvedLeadingTone, Some 2, Some (js ''A''))]"
    unfolding tags_lintCounterpoint [OF k a b] pa pb
    by (simp add: u parallel_at_def leap_at_def unresolved_at_def sign_def mod12_eq)
  from issues_ordered_by_pass [OF k, of "js ''X C4 D4 B5 D4''" "js ''F3 G3 zz C2''"]
  have "lintCounterpoint (js ''X C4 D4 B5 D4'') (js ''F3 G3 zz C2'') (js ''C major'') =
     filter (\<lambda>x. type x = ParseError)
       (lintCounterpoint (js ''X C4 D4 B5 D4'') (js ''F3 G3 zz C2'') (js ''C major'')) @
     filter (\<lambda>x. type x = LengthMismatch)
       (lintCounterpoint (js ''X C4 D4 B5 D4'') (js ''F3 G3 zz C2'') (js ''C major'')) @
     filter (\<lambda>x. type x = Parallel5ths \<or> type x = Parallel8ves)
       (lintCounterpoint (js ''X C4 D4 B5 D4'') (js ''F3 G3 zz C2'') (js ''C major'')) @
     filter (\<lambda>x. type x = LeapOverOctave \<and> voice x = Some (js ''A''))
       (lintCounterpoint (js ''X C4 D4 B5 D4'') (js ''F3 G3 zz C2'') (js ''C major'')) @
     filter (\<lambda>x. type x = LeapOverOctave \<and> voice x = Some (js ''B''))
       (lintCounterpoint (js ''X C4 D4 B5 D4'') (js ''F3 G3 zz C2'') (js ''C major'')) @
     filter (\<lambda>x. type x = UnresolvedLeadingTone \<and> voice x = Some (js ''A''))
       (lintCounterpoint (js ''X C4 D4 B5 D4'') (js ''F3 G3 zz C2'') (js ''C major'')) @
     filter (\<lambda>x. type x = UnresolvedLeadingTone \<and> voice x = Some (js ''B''))
       (lintCounterpoint (js ''X C4 D4 B5 D4'') (js ''F3 G3 zz C2'') (js ''C major''))"
    by (rule conjunct1)
  with k t show ?thesis
    by (intro conjI)
qed

text \<open>
  C9 fails on the source. The flag \<^verbatim>\<open>i\<close> of the key pattern covers the class
  \<^verbatim>\<open>[#b]\<close> too, so the key parser takes an upper-case \<open>B\<close> for an accidental,
  and then ignores it, since the pitch class is derived from \<open>#\<close> and lower-case
  \<open>b\<close> only: \<open>EB major\<close> is read as E major. The note parser rejects that
  spelling, and both read \<open>Eb\<close> as E flat.
\<close>

theorem key_parser_upper_case_accidental:
  "parseKey (js ''EB major'') = Some \<lparr>tonicPC = 4, mode = js ''major''\<rparr> \<and>
   parseKey (js ''E major'') = Some \<lparr>tonicPC = 4, mode = js ''major''\<rparr> \<and>
   parseKey (js ''Eb major'') = Some \<lparr>tonicPC = 3, mode = js ''major''\<rparr> \<and>
   parseNote (js ''EB4'') = None \<and>
   parseNote (js ''Eb4'') = Some \<lparr>raw = js ''Eb4'', midi = 63, pc = 3\<rparr>"
  by (simp add: eval_defs)

text \<open>
  C10. For a key that parses and a note whose pitch class is the leading tone
  \<open>mod12 (tonicPC - 1)\<close>, the check of the source, that the next note has the pitch
  class of the tonic and that \<open>mod12 (next.pc - this.pc) = 1\<close>, holds exactly when
  the next note has the pitch class of the tonic. So the body of the leading-tone loop
  is the body with the simpler check, and an \<open>UnresolvedLeadingTone\<close> issue is
  emitted for a voice at the index \<open>i\<close> exactly when \<open>i\<close> is before the last note,
  the note at \<open>i\<close> is a leading tone and the next note does not have the pitch class
  of the tonic.
\<close>

theorem step_up_conjunct_redundant:
  assumes "parseKey keyStr = Some key"
    and "A = notes' (parseMelody upperLine)" and "B = notes' (parseMelody lowerLine)"
  shows
    "(pc this = mod12 (tonicPC key - 1) \<longrightarrow>
        (pc next = tonicPC key \<and> mod12 (pc next - pc this) = 1 \<longleftrightarrow> pc next = tonicPC key)) \<and>
     rule3_body v name (mod12 (tonicPC key - 1)) (tonicPC key) V i iss =
       rule3_body_simple v name (mod12 (tonicPC key - 1)) (tonicPC key) V i iss \<and>
     ((\<exists>x\<in>set (lintCounterpoint upperLine lowerLine keyStr).
         type x = UnresolvedLeadingTone \<and> voice x = Some (js ''A'') \<and> index x = Some i) \<longleftrightarrow>
      i + 1 < length A \<and> pc (A ! i) = mod12 (tonicPC key - 1) \<and>
      pc (A ! (i + 1)) \<noteq> tonicPC key) \<and>
     ((\<exists>x\<in>set (lintCounterpoint upperLine lowerLine keyStr).
         type x = UnresolvedLeadingTone \<and> voice x = Some (js ''B'') \<and> index x = Some i) \<longleftrightarrow>
      i + 1 < length B \<and> pc (B ! i) = mod12 (tonicPC key - 1) \<and>
      pc (B ! (i + 1)) \<noteq> tonicPC key)"
proof -
  have s: "p = mod12 (tonicPC key - 1) \<Longrightarrow>
      (q = tonicPC key \<and> mod12 (q - p) = 1 \<longleftrightarrow> q = tonicPC key)" for p q
    using step_up_from_leading_tone [of p "tonicPC key"] by auto
  have body: "rule3_body v name (mod12 (tonicPC key - 1)) (tonicPC key) V i iss =
       rule3_body_simple v name (mod12 (tonicPC key - 1)) (tonicPC key) V i iss"
  proof (cases "pc (V ! i) = mod12 (tonicPC key - 1)")
    case True
    from step_up_from_leading_tone [OF True]
    have "mod12 (tonicPC key - pc (V ! i)) = 1" .
    then show ?thesis
      unfolding rule3_body_def rule3_body_simple_def Let_def by auto
  next
    case False
    then show ?thesis
      by (simp add: rule3_body_def rule3_body_simple_def)
  qed
  have u: "unresolved_at (mod12 (tonicPC key - 1)) (tonicPC key) V j \<longleftrightarrow>
      pc (V ! j) = mod12 (tonicPC key - 1) \<and> pc (V ! (j + 1)) \<noteq> tonicPC key" for V j
    using s [of "pc (V ! j)" "pc (V ! (j + 1))"]
    by (auto simp add: unresolved_at_def mod12_eq)
  have out: "((\<exists>x\<in>set (lintCounterpoint upperLine lowerLine keyStr).
         type x = UnresolvedLeadingTone \<and> voice x = Some (js ''A'') \<and> index x = Some i) \<longleftrightarrow>
      i + 1 < length A \<and> pc (A ! i) = mod12 (tonicPC key - 1) \<and>
      pc (A ! (i + 1)) \<noteq> tonicPC key) \<and>
     ((\<exists>x\<in>set (lintCounterpoint upperLine lowerLine keyStr).
         type x = UnresolvedLeadingTone \<and> voice x = Some (js ''B'') \<and> index x = Some i) \<longleftrightarrow>
      i + 1 < length B \<and> pc (B ! i) = mod12 (tonicPC key - 1) \<and>
      pc (B ! (i + 1)) \<noteq> tonicPC key)"
    unfolding ex_issue_voice_tags voice_tags [OF assms] u
    by (auto simp add: voice_names)
  from s [of "pc this" "pc next"] body out show ?thesis
    by blast
qed

theorem step_up_conjunct_redundant_witness:
  "parseKey (js ''C major'') = Some \<lparr>tonicPC = 0, mode = js ''major''\<rparr> \<and>
   pc \<lparr>raw = js ''B3'', midi = 59, pc = 11\<rparr> = mod12 (0 - 1) \<and>
   (pc \<lparr>raw = js ''C4'', midi = 60, pc = 0\<rparr> = 0 \<and>
      mod12 (pc \<lparr>raw = js ''C4'', midi = 60, pc = 0\<rparr> - pc \<lparr>raw = js ''B3'', midi = 59, pc = 11\<rparr>) = 1
    \<longleftrightarrow> pc \<lparr>raw = js ''C4'', midi = 60, pc = 0\<rparr> = 0) \<and>
   (\<exists>x\<in>set (lintCounterpoint (js ''B3 D4 B3'') (js ''B3 C4'') (js ''C major'')).
      type x = UnresolvedLeadingTone \<and> voice x = Some (js ''A'') \<and> index x = Some 0) \<and>
   \<not> (\<exists>x\<in>set (lintCounterpoint (js ''B3 D4 B3'') (js ''B3 C4'') (js ''C major'')).
      type x = UnresolvedLeadingTone \<and> voice x = Some (js ''B'') \<and> index x = Some 0)"
proof -
  have k: "parseKey (js ''C major'') = Some \<lparr>tonicPC = 0, mode = js ''major''\<rparr>"
    by (simp add: eval_defs)
  have a: "[\<lparr>raw = js ''B3'', midi = 59, pc = 11\<rparr>, \<lparr>raw = js ''D4'', midi = 62, pc = 2\<rparr>,
            \<lparr>raw = js ''B3'', midi = 59, pc = 11\<rparr>] = notes' (parseMelody (js ''B3 D4 B3''))"
    by (simp add: eval_defs)
  have b: "[\<lparr>raw = js ''B3'', midi = 59, pc = 11\<rparr>, \<lparr>raw = js ''C4'', midi = 60, pc = 0\<rparr>] =
           notes' (parseMelody (js ''B3 C4''))"
    by (simp add: eval_defs)
  from step_up_conjunct_redundant [OF k a b,
      of "\<lparr>raw = js ''B3'', midi = 59, pc = 11\<rparr>" "\<lparr>raw = js ''C4'', midi = 60, pc = 0\<rparr>" _ _ _ 0]
    k show ?thesis
    by (simp add: mod12_eq)
qed

end
